theory Spec2Isabelle
  imports
    Main
    "HOL-Library.FSet"
    "HOL-Library.Multiset"
    "HOL-Library.AList"
    "HOL-Library.Char_ord"
    "HOL-Library.List_Lexorder"
begin

section \<open>Wire types (types.ts)\<close>

text \<open>
  Node identifiers are JavaScript strings; the operator \<open><\<close> on them is the
  lexicographic order on code units, which is the order \<open><\<close> on \<open>string\<close>
  given by the lexicographic order on lists of characters.
  Logical timestamps are JavaScript numbers that start at 0 and are only ever
  incremented by one; they are modelled as \<open>int\<close>.
\<close>

datatype ControlMessageType = REQUEST | RESPONSE | RELEASE

record ControlMessage =
  type :: ControlMessageType
  originNode :: string
  timestamp_cm :: int

record Message =
  id_msg :: string
  origin :: string
  content :: string
  timestamp_msg :: int

section \<open>The mutual exclusion coordinator (class MutualExclusion)\<close>

text \<open>
  The private fields of the class. The two \<open>Set<string>\<close> fields are finite sets:
  only \<open>add\<close>, \<open>clear\<close> and \<open>size\<close> are used on them. The queue holds the
  objects \<open>{nodeId, timestamp}\<close> as pairs. The two callbacks given to the
  constructor are not state: a call of one of them is an effect in the trace a
  method returns.
\<close>

record MutualExclusion =
  nodeId :: string
  isResourceWaiting :: bool
  isResourceExisting :: bool
  timestamp :: int
  queue :: "(string \<times> int) list"
  receivedMessages :: "string fset"
  knownNodes :: "string fset"

text \<open>
  What a method does besides changing the fields, in the order in which it does it:
  \<open>Sent m\<close> is \<open>sendCallback(m)\<close>, \<open>Granted\<close> is \<open>receivedResourceCallback()\<close>, the
  others are the calls of the logger. \<open>LogResponseTo d\<close> is the debug line of
  \<open>sendResponse\<close>, the only place where the destination of a response appears.
\<close>

datatype effect =
  Sent ControlMessage
  | Granted
  | LogWarning
  | LogInfo
  | LogDebug
  | LogResponseTo string

definition new_MutualExclusion :: "string \<Rightarrow> MutualExclusion" where
  "new_MutualExclusion n =
     \<lparr> nodeId = n, isResourceWaiting = False, isResourceExisting = False,
       timestamp = 0, queue = [], receivedMessages = {||}, knownNodes = {||} \<rparr>"

definition giveResource :: "MutualExclusion \<Rightarrow> MutualExclusion \<times> effect list" where
  "giveResource s =
     (s\<lparr> isResourceExisting := True, isResourceWaiting := False \<rparr>, [LogInfo, Granted])"

definition verifyResponse :: "MutualExclusion \<Rightarrow> MutualExclusion \<times> effect list" where
  "verifyResponse s =
     (if fcard (receivedMessages s) \<ge> fcard (knownNodes s) then giveResource s
      else (s, []))"

text \<open>\<open>sendResponse\<close> reads the fields and changes none; the destination is only logged.\<close>

definition sendResponse :: "string \<Rightarrow> MutualExclusion \<Rightarrow> effect list" where
  "sendResponse destination s =
     [LogResponseTo destination,
      Sent \<lparr> type = RESPONSE, originNode = nodeId s, timestamp_cm = timestamp s \<rparr>]"

definition requestResource :: "MutualExclusion \<Rightarrow> MutualExclusion \<times> effect list" where
  "requestResource s =
     (if isResourceWaiting s then (s, [LogWarning])
      else if isResourceExisting s then (s, [LogWarning])
      else
        let s1 = s\<lparr> timestamp := timestamp s + 1, isResourceWaiting := True,
                    receivedMessages := {||} \<rparr>
        in if fcard (knownNodes s1) = 0
           then (case giveResource s1 of (s2, es) \<Rightarrow> (s2, LogInfo # es))
           else (case verifyResponse s1 of (s2, es) \<Rightarrow>
                   (s2, [LogInfo,
                         Sent \<lparr> type = REQUEST, originNode = nodeId s1,
                                timestamp_cm = timestamp s1 \<rparr>] @ es)))"

subsection \<open>The deferred queue\<close>

text \<open>
  \<open>Array.prototype.sort\<close> with a comparison function is a stable sort; for a
  comparison function that is consistent (a total preorder) every stable sort gives the
  same list, and the model sorts by insertion. The comparison function of
  \<open>processQueue\<close> is \<open>compareQueue\<close>: the difference of the timestamps, and for
  equal timestamps \<open>String.prototype.localeCompare\<close> on the identifiers, which
  depends on the locale of the host and is a parameter \<open>lc\<close> of everything that
  drains the queue.
\<close>

definition compareQueue ::
  "(string \<Rightarrow> string \<Rightarrow> int) \<Rightarrow> string \<times> int \<Rightarrow> string \<times> int \<Rightarrow> int" where
  "compareQueue lc a b =
     (if snd a \<noteq> snd b then snd a - snd b else lc (fst a) (fst b))"

fun insert_cmp :: "('a \<Rightarrow> 'a \<Rightarrow> int) \<Rightarrow> 'a \<Rightarrow> 'a list \<Rightarrow> 'a list" where
  "insert_cmp c x [] = [x]"
| "insert_cmp c x (y # ys) = (if c x y \<le> 0 then x # y # ys else y # insert_cmp c x ys)"

definition sort_cmp :: "('a \<Rightarrow> 'a \<Rightarrow> int) \<Rightarrow> 'a list \<Rightarrow> 'a list" where
  "sort_cmp c xs = foldr (insert_cmp c) xs []"

text \<open>The \<open>while\<close> loop of \<open>processQueue\<close>: shift the head, respond, repeat.\<close>

function processQueue_loop :: "MutualExclusion \<Rightarrow> MutualExclusion \<times> effect list" where
  "processQueue_loop s =
     (case queue s of
        [] \<Rightarrow> (s, [])
      | next # rest \<Rightarrow>
          (case processQueue_loop (s\<lparr> queue := rest \<rparr>) of
             (s', es) \<Rightarrow> (s', sendResponse (fst next) (s\<lparr> queue := rest \<rparr>) @ es)))"
  by pat_completeness auto
termination
  by (relation "measure (\<lambda>s. length (queue s))") auto

declare processQueue_loop.simps [simp del]

definition processQueue ::
  "(string \<Rightarrow> string \<Rightarrow> int) \<Rightarrow> MutualExclusion \<Rightarrow> MutualExclusion \<times> effect list" where
  "processQueue lc s =
     processQueue_loop
       (if length (queue s) > 0 then s\<lparr> queue := sort_cmp (compareQueue lc) (queue s) \<rparr>
        else s)"

definition releaseResource ::
  "(string \<Rightarrow> string \<Rightarrow> int) \<Rightarrow> MutualExclusion \<Rightarrow> MutualExclusion \<times> effect list" where
  "releaseResource lc s =
     (if \<not> isResourceExisting s then (s, [LogWarning])
      else
        let s1 = s\<lparr> isResourceExisting := False, isResourceWaiting := False \<rparr>
        in case processQueue lc s1 of (s2, es) \<Rightarrow>
             (s2, [LogInfo,
                   Sent \<lparr> type = RELEASE, originNode = nodeId s1,
                          timestamp_cm = timestamp s1 \<rparr>] @ es))"

subsection \<open>Inbound control messages\<close>

definition processRequest :: "MutualExclusion \<Rightarrow> ControlMessage \<Rightarrow> MutualExclusion \<times> effect list" where
  "processRequest s message =
     (if isResourceExisting s \<or> isResourceWaiting s \<and>
           (timestamp s < timestamp_cm message \<or>
            (timestamp s = timestamp_cm message \<and> nodeId s < originNode message))
      then (s\<lparr> queue := queue s @ [(originNode message, timestamp_cm message)] \<rparr>,
            [LogDebug, LogDebug])
      else (s, LogDebug # sendResponse (originNode message) s))"

definition processResponse :: "MutualExclusion \<Rightarrow> ControlMessage \<Rightarrow> MutualExclusion \<times> effect list" where
  "processResponse s message =
     (if \<not> isResourceWaiting s then (s, [])
      else
        case verifyResponse
               (s\<lparr> receivedMessages := finsert (originNode message) (receivedMessages s) \<rparr>) of
          (s', es) \<Rightarrow> (s', LogDebug # es))"

definition processRelease ::
  "(string \<Rightarrow> string \<Rightarrow> int) \<Rightarrow> MutualExclusion \<Rightarrow> ControlMessage \<Rightarrow> MutualExclusion \<times> effect list" where
  "processRelease lc s message =
     (case processQueue lc s of (s', es) \<Rightarrow> (s', LogDebug # es))"

definition processMessage ::
  "(string \<Rightarrow> string \<Rightarrow> int) \<Rightarrow> MutualExclusion \<Rightarrow> ControlMessage \<Rightarrow> MutualExclusion \<times> effect list" where
  "processMessage lc s message =
     (let s1 = s\<lparr> knownNodes := finsert (originNode message) (knownNodes s) \<rparr>
      in case type message of
           REQUEST \<Rightarrow> processRequest s1 message
         | RESPONSE \<Rightarrow> processResponse s1 message
         | RELEASE \<Rightarrow> processRelease lc s1 message)"

definition addKnownNode :: "string \<Rightarrow> MutualExclusion \<Rightarrow> MutualExclusion \<times> effect list" where
  "addKnownNode n s =
     (if n \<noteq> nodeId s then (s\<lparr> knownNodes := finsert n (knownNodes s) \<rparr>, [LogDebug])
      else (s, []))"

definition getStatus :: "MutualExclusion \<Rightarrow> bool \<times> bool" where
  "getStatus s = (isResourceWaiting s, isResourceExisting s)"

text \<open>The control messages among the effects, in the order sent.\<close>

fun sent_messages :: "effect list \<Rightarrow> ControlMessage list" where
  "sent_messages [] = []"
| "sent_messages (Sent m # es) = m # sent_messages es"
| "sent_messages (e # es) = sent_messages es"

text \<open>
  The priority rule in the words of the specification: the local request has priority
  over the remote one when its timestamp is smaller, or the timestamps are equal and
  the local identifier is the smaller string.
\<close>

definition local_priority :: "MutualExclusion \<Rightarrow> ControlMessage \<Rightarrow> bool" where
  "local_priority s message \<longleftrightarrow>
     timestamp s < timestamp_cm message \<or>
     (timestamp s = timestamp_cm message \<and> nodeId s < originNode message)"

text \<open>The destinations named by the debug lines of \<open>sendResponse\<close>, in order.\<close>

fun response_destinations :: "effect list \<Rightarrow> string list" where
  "response_destinations [] = []"
| "response_destinations (LogResponseTo d # es) = d # response_destinations es"
| "response_destinations (e # es) = response_destinations es"

text \<open>
  The order on queue entries in the words of the specification: ascending timestamp,
  then ascending node identifier, where identifiers are compared by \<open>lc\<close>.
\<close>

definition queue_le :: "(string \<Rightarrow> string \<Rightarrow> int) \<Rightarrow> string \<times> int \<Rightarrow> string \<times> int \<Rightarrow> bool" where
  "queue_le lc a b \<longleftrightarrow> snd a < snd b \<or> (snd a = snd b \<and> lc (fst a) (fst b) \<le> 0)"

text \<open>A comparison of identifiers by code units, one possible \<open>localeCompare\<close>.\<close>

definition codeUnitCompare :: "string \<Rightarrow> string \<Rightarrow> int" where
  "codeUnitCompare a b = (if a < b then - 1 else if a = b then 0 else 1)"

section \<open>A group of coordinators on the multicast transport\<close>

text \<open>
  Each coordinator is constructed in index.ts with \<open>sendCallback = multicast.sendMessage\<close>:
  every control message goes as one datagram to the group, and the socket of every
  member receives it, the sender's too. A receiving transport drops a datagram whose
  \<open>originNode\<close> is its own identifier and hands every other one to \<open>processMessage\<close>.
  \<open>pending\<close> holds the datagrams sent and not yet received, with the member whose socket
  will receive each; no datagram is ever removed other than by being received.
\<close>

record Network =
  nodes :: "(string \<times> MutualExclusion) list"
  pending :: "(string \<times> ControlMessage) list"

datatype event = Request string | Release string | Deliver nat

definition broadcast :: "string list \<Rightarrow> ControlMessage list \<Rightarrow> (string \<times> ControlMessage) list" where
  "broadcast members ms = concat (map (\<lambda>m. map (\<lambda>d. (d, m)) members) ms)"

definition local_call ::
  "string \<Rightarrow> (MutualExclusion \<Rightarrow> MutualExclusion \<times> effect list) \<Rightarrow> (string \<times> ControlMessage) list
     \<Rightarrow> Network \<Rightarrow> Network option" where
  "local_call n f rest net =
     (case map_of (nodes net) n of
        None \<Rightarrow> None
      | Some s \<Rightarrow>
          (case f s of (s', es) \<Rightarrow>
             Some \<lparr> nodes = AList.update n s' (nodes net),
                    pending = rest @ broadcast (map fst (nodes net)) (sent_messages es) \<rparr>))"

fun step :: "(string \<Rightarrow> string \<Rightarrow> int) \<Rightarrow> event \<Rightarrow> Network \<Rightarrow> Network option" where
  "step lc (Request n) net = local_call n requestResource (pending net) net"
| "step lc (Release n) net = local_call n (releaseResource lc) (pending net) net"
| "step lc (Deliver k) net =
     (if k < length (pending net) then
        (case pending net ! k of (d, m) \<Rightarrow>
           let rest = take k (pending net) @ drop (Suc k) (pending net)
           in if originNode m = d then Some (net\<lparr> pending := rest \<rparr>)
              else local_call d (\<lambda>s. processMessage lc s m) rest net)
      else None)"

fun run :: "(string \<Rightarrow> string \<Rightarrow> int) \<Rightarrow> event list \<Rightarrow> Network \<Rightarrow> Network option" where
  "run lc [] net = Some net"
| "run lc (e # es) net = (case step lc e net of None \<Rightarrow> None | Some net' \<Rightarrow> run lc es net')"

definition start_network :: "string list \<Rightarrow> Network" where
  "start_network members = \<lparr> nodes = map (\<lambda>n. (n, new_MutualExclusion n)) members, pending = [] \<rparr>"

definition holders :: "Network \<Rightarrow> string list" where
  "holders net = map fst (filter (\<lambda>p. isResourceExisting (snd p)) (nodes net))"

definition outcome :: "Network \<Rightarrow> string list \<times> (string \<times> ControlMessage) list" where
  "outcome net = (holders net, pending net)"

text \<open>What a run shows of each node: waiting, holding, timestamp and queue.\<close>

definition view :: "Network \<Rightarrow> (string \<times> bool \<times> bool \<times> int \<times> (string \<times> int) list) list" where
  "view net =
     map (\<lambda>p. (fst p, isResourceWaiting (snd p), isResourceExisting (snd p),
                timestamp (snd p), queue (snd p))) (nodes net)"

text \<open>
  A run of three fresh nodes in which every datagram is received by every member, in
  the order sent (\<open>Deliver 0\<close> receives the oldest outstanding datagram). A takes and
  releases the resource while it knows nobody, and its RELEASE makes it known; B
  requests and is granted by the RESPONSE of A; A requests while B holds; C requests
  while B holds; B releases.
\<close>

definition deliver_all :: "nat \<Rightarrow> event list" where
  "deliver_all k = replicate k (Deliver 0)"

definition B_is_granted :: "event list" where
  "B_is_granted =
     [Request ''A'', Release ''A''] @ deliver_all 3 @ [Request ''B''] @ deliver_all 9"

definition A_requests :: "event list" where
  "A_requests = [Request ''A''] @ deliver_all 6"

definition C_requests :: "event list" where
  "C_requests = [Request ''C''] @ deliver_all 6"

definition B_releases :: "event list" where
  "B_releases = [Release ''B''] @ deliver_all 9"

definition two_holders_run :: "event list" where
  "two_holders_run = B_is_granted @ A_requests @ C_requests @ B_releases"

text \<open>Two fresh nodes that each request once, before any datagram has been sent.\<close>

definition fresh_pair_run :: "event list" where
  "fresh_pair_run = [Request ''A'', Request ''B'']"

text \<open>States along small runs of one coordinator, used as concrete inputs below.\<close>

definition holder_b :: MutualExclusion where
  "holder_b = fst (requestResource (new_MutualExclusion ''b''))"

definition request_a1 :: ControlMessage where
  "request_a1 = \<lparr> type = REQUEST, originNode = ''a'', timestamp_cm = 1 \<rparr>"

definition waiter_a0 :: MutualExclusion where
  "waiter_a0 =
     fst (processMessage codeUnitCompare (new_MutualExclusion ''a'')
            \<lparr> type = RELEASE, originNode = ''b'', timestamp_cm = 1 \<rparr>)"

definition waiter_a1 :: MutualExclusion where
  "waiter_a1 = fst (requestResource waiter_a0)"

definition waiter_a2 :: MutualExclusion where
  "waiter_a2 =
     fst (processMessage codeUnitCompare waiter_a1
            \<lparr> type = REQUEST, originNode = ''c'', timestamp_cm = 5 \<rparr>)"

definition waiter_a3 :: MutualExclusion where
  "waiter_a3 =
     fst (processMessage codeUnitCompare waiter_a2
            \<lparr> type = RESPONSE, originNode = ''b'', timestamp_cm = 0 \<rparr>)"

definition holder_with_queue :: MutualExclusion where
  "holder_with_queue =
     fst (processMessage codeUnitCompare
            (fst (processMessage codeUnitCompare holder_b
                    \<lparr> type = REQUEST, originNode = ''c'', timestamp_cm = 2 \<rparr>))
            request_a1)"

section \<open>The group transport (class MulticastCommunicator)\<close>

text \<open>
  What \<open>JSON.parse\<close> returns. Reading a property of \<open>null\<close> throws a
  \<open>TypeError\<close>; reading a property that a value does not have gives
  \<open>undefined\<close>, here \<open>None\<close>. Only the properties \<open>origin\<close> and
  \<open>originNode\<close> are ever read, and no string, number, boolean or array has them.
\<close>

datatype json =
  JNull
  | JBool bool
  | JNumber int
  | JString string
  | JArray "json list"
  | JObject "(string \<times> json) list"

datatype js_error = TypeError

definition getProperty :: "json \<Rightarrow> string \<Rightarrow> js_error + json option" where
  "getProperty v k =
     (case v of
        JNull \<Rightarrow> Inl TypeError
      | JObject kvs \<Rightarrow> Inr (map_of kvs k)
      | _ \<Rightarrow> Inr None)"

record MulticastCommunicator =
  nodeId_mc :: string
  address :: string
  port :: nat

text \<open>
  The effects of the socket handlers: a call of the registered \<open>messageCallback\<close>,
  a datagram given to \<open>socket.send\<close> with its port and address, and the log calls.
\<close>

datatype transport_effect =
  Handler json
  | SocketSend string nat string
  | TransportLogError
  | TransportLogDebug

text \<open>
  The \<open>message\<close> handler of the socket. \<open>JSON_parse\<close> is the parser of the host,
  \<open>None\<close> where it throws; \<open>handler_throws\<close> tells on which payloads the registered
  callback throws. The whole body is inside one \<open>try\<close>, whose \<open>catch\<close> logs an error.
\<close>

definition onMessage ::
  "(string \<Rightarrow> json option) \<Rightarrow> (json \<Rightarrow> bool) \<Rightarrow> MulticastCommunicator \<Rightarrow> string
     \<Rightarrow> transport_effect list" where
  "onMessage JSON_parse handler_throws comm msg =
     (case JSON_parse msg of
        None \<Rightarrow> [TransportLogError]
      | Some data \<Rightarrow>
          (case getProperty data ''origin'' of
             Inl e \<Rightarrow> [TransportLogError]
           | Inr o1 \<Rightarrow>
               if o1 = Some (JString (nodeId_mc comm)) then []
               else
                 (case getProperty data ''originNode'' of
                    Inl e \<Rightarrow> [TransportLogError]
                  | Inr o2 \<Rightarrow>
                      if o2 = Some (JString (nodeId_mc comm)) then []
                      else [TransportLogDebug, Handler data] @
                           (if handler_throws data then [TransportLogError] else []))))"

text \<open>
  \<open>sendMessage\<close>: one datagram to the port and address of the group, whatever the
  payload; \<open>send_failed\<close> is the error the socket reports to the callback of \<open>send\<close>.
\<close>

definition sendMessage ::
  "('p \<Rightarrow> string) \<Rightarrow> bool \<Rightarrow> MulticastCommunicator \<Rightarrow> 'p \<Rightarrow> transport_effect list" where
  "sendMessage JSON_stringify send_failed comm msg =
     [SocketSend (JSON_stringify msg) (port comm) (address comm),
      if send_failed then TransportLogError else TransportLogDebug]"

fun handler_calls :: "transport_effect list \<Rightarrow> json list" where
  "handler_calls [] = []"
| "handler_calls (Handler d # es) = d # handler_calls es"
| "handler_calls (e # es) = handler_calls es"

text \<open>A parser that knows the text \<open>null\<close> only, and a transport of node \<open>n1\<close>.\<close>

definition parse_null_only :: "string \<Rightarrow> json option" where
  "parse_null_only txt = (if txt = ''null'' then Some JNull else None)"

definition parse_fixed_object :: "string \<Rightarrow> json option" where
  "parse_fixed_object txt =
     (if txt = ''{}'' then Some (JObject [(''originNode'', JString ''n2'')]) else None)"

definition never_throws :: "json \<Rightarrow> bool" where
  "never_throws d = False"

definition transport_n1 :: MulticastCommunicator where
  "transport_n1 = \<lparr> nodeId_mc = ''n1'', address = ''224.1.1.1'', port = 5007 \<rparr>"

section \<open>Replication and reconciliation (classes Replicator and Reconciler)\<close>

text \<open>
  A replica is a directory of files \<open><name>.json\<close>, each holding one message: the list
  of the pairs (name, message) in the order in which the directory is read, one pair
  for each file name. The replicator has \<open>replicasNumber\<close> such directories,
  \<open>replica_1\<close> to \<open>replica_N\<close>; they are the elements of a list, \<open>replica_i\<close> at
  position \<open>i - 1\<close>. Every directory is taken to be readable and every file in it to
  parse as a message.
\<close>

type_synonym replica = "(string \<times> Message) list"

definition getReplicaMessage :: "replica \<Rightarrow> Message list" where
  "getReplicaMessage r = sort_key timestamp_msg (map snd r)"

definition getAllMessages :: "replica list \<Rightarrow> (nat \<times> Message list) list" where
  "getAllMessages rs = zip [1 ..< Suc (length rs)] (map getReplicaMessage rs)"

text \<open>
  \<open>saveMessage\<close> schedules one write per replica, each after its own random delay, of
  the path \<open>path.join(replicaPath, message.id + '.json')\<close>; a scheduled write is the pair
  of the replica number and the message. Where that path lies is decided by
  \<open>path.join\<close> and the file system of the host, which are not in the source: the
  parameter \<open>locate\<close> gives, for the replica number \<open>i\<close> of the write and the
  identifier of the message, \<open>Some (j, name)\<close> when the path is the file
  \<open>name.json\<close> in the directory of \<open>replica_j\<close>, and \<open>None\<close> when the write fails
  (a directory of the path does not exist) or the path is in no replica directory. An
  identifier without a path separator gives \<open>Some (i, identifier)\<close>; \<open>./m\<close> gives
  \<open>Some (i, m)\<close>. A write that completes replaces the file of that name or adds it; a
  write that fails is logged and changes nothing.
\<close>

definition saveMessage :: "nat \<Rightarrow> Message \<Rightarrow> (nat \<times> Message) list" where
  "saveMessage replicasNumber message = map (\<lambda>i. (i, message)) [1 ..< Suc replicasNumber]"

definition completeWrite ::
  "(nat \<Rightarrow> string \<Rightarrow> (nat \<times> string) option) \<Rightarrow> nat \<times> Message \<Rightarrow> replica list \<Rightarrow> replica list" where
  "completeWrite locate w rs =
     (case locate (fst w) (id_msg (snd w)) of
        None \<Rightarrow> rs
      | Some (j, name) \<Rightarrow>
          if 1 \<le> j \<and> j \<le> length rs
          then rs[j - 1 := AList.update name (snd w) (rs ! (j - 1))]
          else rs)"

definition completeWrites ::
  "(nat \<Rightarrow> string \<Rightarrow> (nat \<times> string) option) \<Rightarrow> (nat \<times> Message) list \<Rightarrow> replica list
     \<Rightarrow> replica list" where
  "completeWrites locate ws rs = fold (completeWrite locate) ws rs"

text \<open>
  The body of the inner \<open>forEach\<close> of \<open>reconcile\<close> on the \<open>Map\<close> \<open>uniqueMessages\<close>,
  an association list in insertion order.
\<close>

definition keepNewest :: "Message \<Rightarrow> (string \<times> Message) list \<Rightarrow> (string \<times> Message) list" where
  "keepNewest message u =
     (case map_of u (id_msg message) of
        None \<Rightarrow> AList.update (id_msg message) message u
      | Some old \<Rightarrow>
          if timestamp_msg old < timestamp_msg message
          then AList.update (id_msg message) message u
          else u)"

definition uniqueMessages :: "(nat \<times> Message list) list \<Rightarrow> (string \<times> Message) list" where
  "uniqueMessages allMessages = fold (\<lambda>entry u. fold keepNewest (snd entry) u) allMessages []"

definition missingMessages :: "(string \<times> Message) list \<Rightarrow> Message list \<Rightarrow> Message list" where
  "missingMessages u messages =
     filter (\<lambda>m. id_msg m \<notin> set (map id_msg messages)) (map snd u)"

text \<open>\<open>reconcile\<close> returns the writes it schedules, in the order of the calls of \<open>saveMessage\<close>.\<close>

definition reconcile :: "replica list \<Rightarrow> (nat \<times> Message) list" where
  "reconcile rs =
     (let allMessages = getAllMessages rs;
          u = uniqueMessages allMessages
      in concat (map (\<lambda>entry.
                   let missing = missingMessages u (snd entry)
                   in if length missing > 0
                      then concat (map (saveMessage (length rs)) missing)
                      else [])
                 allMessages))"

definition replicaIds :: "replica \<Rightarrow> string set" where
  "replicaIds r = set (map id_msg (getReplicaMessage r))"

text \<open>Every file of the replica is named after the identifier of the message in it.\<close>

definition named_by_id :: "replica \<Rightarrow> bool" where
  "named_by_id r \<longleftrightarrow> (\<forall>p \<in> set r. fst p = id_msg (snd p))"

text \<open>
  Every identifier in the replicas is the name of its own file: a write of a message
  with that identifier to \<open>replica_i\<close> is the file \<open><identifier>.json\<close> of \<open>replica_i\<close>.
\<close>

definition ids_name_files ::
  "(nat \<Rightarrow> string \<Rightarrow> (nat \<times> string) option) \<Rightarrow> replica list \<Rightarrow> bool" where
  "ids_name_files locate rs \<longleftrightarrow>
     (\<forall>r \<in> set rs. \<forall>x \<in> replicaIds r. \<forall>i \<in> {1 .. length rs}. locate i x = Some (i, x))"

text \<open>
  A host for the examples: an identifier without a separator names its own file, an
  identifier that is \<open>./\<close> followed by a name without a separator names the file of
  that name, and the write of any other identifier is taken to fail.
\<close>

definition locate_in_place :: "nat \<Rightarrow> string \<Rightarrow> (nat \<times> string) option" where
  "locate_in_place i x =
     (if CHR ''/'' \<notin> set x then Some (i, x)
      else if take 2 x = ''./'' \<and> CHR ''/'' \<notin> set (drop 2 x) then Some (i, drop 2 x)
      else None)"

definition m1 :: Message where
  "m1 = \<lparr> id_msg = ''m1'', origin = ''n1'', content = ''one'', timestamp_msg = 10 \<rparr>"

definition m2 :: Message where
  "m2 = \<lparr> id_msg = ''m2'', origin = ''n2'', content = ''two'', timestamp_msg = 20 \<rparr>"

definition three_replicas :: "replica list" where
  "three_replicas = [[(''m1'', m1)], [], [(''m1'', m1), (''m2'', m2)]]"

text \<open>
  Two messages whose identifiers \<open>./m2\<close> and \<open>m2\<close> are written to the same file
  \<open>m2.json\<close>, and two replicas in which the writes of \<open>saveMessage\<close> for both
  completed in different orders: the file holds the one in the first replica and the
  other in the second.
\<close>

definition dot_m2 :: Message where
  "dot_m2 = \<lparr> id_msg = ''./m2'', origin = ''n1'', content = ''dot'', timestamp_msg = 30 \<rparr>"

definition clashing_replicas :: "replica list" where
  "clashing_replicas = [[(''m2'', dot_m2)], [(''m2'', m2)]]"

text \<open>Two replicas, the first with a file \<open>m2.json\<close> that holds the message \<open>m1\<close>.\<close>

definition misnamed_replicas :: "replica list" where
  "misnamed_replicas = [[(''m2'', m1)], [(''m1'', m1), (''m2'', m2)]]"

section \<open>Checkpoints (class CheckpointManager)\<close>

text \<open>
  The table \<open>checkpoints\<close>: its rows in the order of insertion. The column \<open>id\<close>
  is the primary key, so an insertion of a row whose \<open>id\<close> is already in the table
  fails and the table stays as it was. The type of the column \<open>data\<close> is what
  \<open>JSON.stringify\<close> produces; \<open>JSON_stringify\<close> and \<open>JSON_parse\<close> are parameters.
\<close>

record 'd CheckpointRow =
  id_row :: string
  node_id :: string
  timestamp_row :: int
  data :: 'd

record Checkpoint =
  id_cp :: string
  messages :: "Message list"
  timestamp_cp :: int

datatype db_error = PrimaryKeyConstraint

definition insertRow :: "'d CheckpointRow \<Rightarrow> 'd CheckpointRow list \<Rightarrow> db_error + 'd CheckpointRow list" where
  "insertRow row tbl =
     (if id_row row \<in> set (map id_row tbl) then Inl PrimaryKeyConstraint
      else Inr (tbl @ [row]))"

text \<open>The decimal digits of a timestamp, as a template literal writes a whole number.\<close>

function digits :: "int \<Rightarrow> string" where
  "digits n =
     (if n < 10 then [''0123456789'' ! nat n]
      else digits (n div 10) @ [''0123456789'' ! nat (n mod 10)])"
  by pat_completeness auto
termination
  by (relation "measure nat") auto

declare digits.simps [simp del]

definition string_of_timestamp :: "int \<Rightarrow> string" where
  "string_of_timestamp i = (if i < 0 then CHR ''-'' # digits (- i) else digits i)"

definition checkpointId :: "string \<Rightarrow> int \<Rightarrow> string" where
  "checkpointId nodId now = nodId @ ''-'' @ string_of_timestamp now"

text \<open>
  \<open>createCheckpoint\<close>: \<open>now\<close> is the value of \<open>Date.now()\<close> and \<open>msgs\<close> the list
  the snapshot callback returns. The result is the table after the call and the
  string returned.
\<close>

definition createCheckpoint ::
  "(Message list \<Rightarrow> 'd) \<Rightarrow> string \<Rightarrow> int \<Rightarrow> Message list \<Rightarrow> 'd CheckpointRow list
     \<Rightarrow> 'd CheckpointRow list \<times> string" where
  "createCheckpoint JSON_stringify nodId now msgs tbl =
     (case insertRow \<lparr> id_row = checkpointId nodId now, node_id = nodId,
                       timestamp_row = now, data = JSON_stringify msgs \<rparr> tbl of
        Inl e \<Rightarrow> (tbl, [])
      | Inr tbl' \<Rightarrow> (tbl', checkpointId nodId now))"

text \<open>
  \<open>ORDER BY timestamp DESC LIMIT 1\<close>: a row of greatest timestamp, the earliest inserted
  one among several.
\<close>

fun greatestRow :: "'d CheckpointRow \<Rightarrow> 'd CheckpointRow list \<Rightarrow> 'd CheckpointRow" where
  "greatestRow best [] = best"
| "greatestRow best (r # rs) =
     (if timestamp_row best < timestamp_row r then greatestRow r rs else greatestRow best rs)"

definition getLastCheckpoint ::
  "('d \<Rightarrow> Message list option) \<Rightarrow> string \<Rightarrow> 'd CheckpointRow list \<Rightarrow> Checkpoint option" where
  "getLastCheckpoint JSON_parse nodId tbl =
     (case filter (\<lambda>r. node_id r = nodId) tbl of
        [] \<Rightarrow> None
      | r # rs \<Rightarrow>
          (let row = greatestRow r rs
           in case JSON_parse (data row) of
                None \<Rightarrow> None
              | Some ms \<Rightarrow>
                  Some \<lparr> id_cp = id_row row, messages = ms, timestamp_cp = timestamp_row row \<rparr>))"

definition recoverState ::
  "('d \<Rightarrow> Message list option) \<Rightarrow> string \<Rightarrow> 'd CheckpointRow list \<Rightarrow> Message list" where
  "recoverState JSON_parse nodId tbl =
     (case getLastCheckpoint JSON_parse nodId tbl of
        None \<Rightarrow> []
      | Some checkpoint \<Rightarrow> messages checkpoint)"

text \<open>A serialisation that loses nothing: the list itself.\<close>

definition lossless_stringify :: "Message list \<Rightarrow> Message list" where
  "lossless_stringify ms = ms"

definition lossless_parse :: "Message list \<Rightarrow> Message list option" where
  "lossless_parse d = Some d"

definition parse_own_object :: "string \<Rightarrow> json option" where
  "parse_own_object txt =
     (if txt = ''{}'' then Some (JObject [(''originNode'', JString ''n1'')]) else None)"

definition table_at_1000 :: "Message list CheckpointRow list" where
  "table_at_1000 = fst (createCheckpoint lossless_stringify ''n1'' 1000 [m1] [])"

section \<open>Properties of the coordinator\<close>

subsection \<open>Concrete states\<close>

lemma holder_b_value:
  "holder_b = \<lparr> nodeId = ''b'', isResourceWaiting = False, isResourceExisting = True,
       timestamp = 1, queue = [], receivedMessages = {||}, knownNodes = {||} \<rparr>"
  by (simp add: holder_b_def requestResource_def new_MutualExclusion_def giveResource_def)

lemma processQueue_loop_result:
  "queue s = q \<Longrightarrow>
   processQueue_loop s =
     (s\<lparr> queue := [] \<rparr>,
      concat (map (\<lambda>e. [LogResponseTo (fst e),
        Sent \<lparr> type = RESPONSE, originNode = nodeId s, timestamp_cm = timestamp s \<rparr>]) q))"
proof (induction q arbitrary: s)
  case Nil
  then show ?case by (subst processQueue_loop.simps) simp
next
  case (Cons nxt rest)
  have "queue (s\<lparr> queue := rest \<rparr>) = rest" by simp
  from Cons.IH[OF this] Cons.prems show ?case
    by (subst processQueue_loop.simps) (simp add: sendResponse_def)
qed

lemma processQueue_loop_fields: "fst (processQueue_loop s) = s\<lparr> queue := [] \<rparr>"
  by (simp add: processQueue_loop_result[OF refl])

lemma processQueue_loop_effects:
  "snd (processQueue_loop s) =
     concat (map (\<lambda>e. [LogResponseTo (fst e),
        Sent \<lparr> type = RESPONSE, originNode = nodeId s, timestamp_cm = timestamp s \<rparr>]) (queue s))"
  by (simp add: processQueue_loop_result[OF refl])

lemma processQueue_state: "fst (processQueue lc s) = s\<lparr> queue := [] \<rparr>"
  by (simp add: processQueue_def processQueue_loop_fields)

lemma processQueue_effects:
  "snd (processQueue lc s) =
     concat (map (\<lambda>e. [LogResponseTo (fst e),
        Sent \<lparr> type = RESPONSE, originNode = nodeId s, timestamp_cm = timestamp s \<rparr>])
        (sort_cmp (compareQueue lc) (queue s)))"
  by (cases "queue s") (simp_all add: processQueue_def processQueue_loop_effects sort_cmp_def)

lemma processQueue_empty: "queue s = [] \<Longrightarrow> processQueue lc s = (s, [])"
  using processQueue_state[of lc s] processQueue_effects[of lc s]
  by (cases "processQueue lc s") (simp add: sort_cmp_def)

lemma waiter_a0_value:
  "waiter_a0 = \<lparr> nodeId = ''a'', isResourceWaiting = False, isResourceExisting = False,
       timestamp = 0, queue = [], receivedMessages = {||}, knownNodes = {|''b''|} \<rparr>"
  by (simp add: waiter_a0_def processMessage_def processRelease_def processQueue_empty
      new_MutualExclusion_def)

lemma waiter_a1_value:
  "waiter_a1 = \<lparr> nodeId = ''a'', isResourceWaiting = True, isResourceExisting = False,
       timestamp = 1, queue = [], receivedMessages = {||}, knownNodes = {|''b''|} \<rparr>"
  by (simp add: waiter_a1_def waiter_a0_value requestResource_def verifyResponse_def
      fcard_finsert_if)

lemma waiter_a2_value:
  "waiter_a2 = \<lparr> nodeId = ''a'', isResourceWaiting = True, isResourceExisting = False,
       timestamp = 1, queue = [(''c'', 5)], receivedMessages = {||},
       knownNodes = {|''c'', ''b''|} \<rparr>"
  by (simp add: waiter_a2_def waiter_a1_value processMessage_def processRequest_def)

lemma waiter_a3_value:
  "waiter_a3 = \<lparr> nodeId = ''a'', isResourceWaiting = True, isResourceExisting = False,
       timestamp = 1, queue = [(''c'', 5)], receivedMessages = {|''b''|},
       knownNodes = {|''c'', ''b''|} \<rparr>"
  by (simp add: waiter_a3_def waiter_a2_value processMessage_def processResponse_def
      verifyResponse_def fcard_finsert_if finsert_commute)

subsection \<open>No-ops\<close>

text \<open>
  C4: \<open>requestResource\<close> on a node that is already waiting or already holding, and
  \<open>releaseResource\<close> on a node that is not holding, log one warning, leave every field
  of the coordinator as it was and send no message.
\<close>

theorem C4_noop_calls:
  "(isResourceWaiting s \<or> isResourceExisting s \<longrightarrow>
      fst (requestResource s) = s \<and> snd (requestResource s) = [LogWarning] \<and>
      sent_messages (snd (requestResource s)) = []) \<and>
   (\<not> isResourceExisting s \<longrightarrow>
      fst (releaseResource lc s) = s \<and> snd (releaseResource lc s) = [LogWarning] \<and>
      sent_messages (snd (releaseResource lc s)) = [])"
  by (simp add: requestResource_def releaseResource_def)

theorem C4_noop_calls_witness:
  "isResourceWaiting waiter_a1 \<and> \<not> isResourceExisting waiter_a1 \<and>
   requestResource waiter_a1 = (waiter_a1, [LogWarning]) \<and>
   releaseResource codeUnitCompare waiter_a1 = (waiter_a1, [LogWarning]) \<and>
   isResourceExisting holder_b \<and>
   requestResource holder_b = (holder_b, [LogWarning])"
proof -
  have w: "isResourceWaiting waiter_a1" "\<not> isResourceExisting waiter_a1"
    by (simp_all add: waiter_a1_value)
  have h: "isResourceExisting holder_b" by (simp add: holder_b_value)
  from w h C4_noop_calls[of waiter_a1 codeUnitCompare] C4_noop_calls[of holder_b codeUnitCompare]
  show ?thesis by (simp add: prod_eq_iff)
qed

subsection \<open>Handling a REQUEST\<close>

lemma processMessage_REQUEST:
  "type m = REQUEST \<Longrightarrow>
   processMessage lc s m =
     processRequest (s\<lparr> knownNodes := finsert (originNode m) (knownNodes s) \<rparr>) m"
  by (simp add: processMessage_def)

text \<open>
  C2, as the code has it: a node that is neither holding nor waiting answers a REQUEST
  at once with one RESPONSE; a node that holds the resource always puts the requester
  in its queue and sends nothing, whatever the two timestamps are; a node that is
  waiting and not holding puts the requester in its queue exactly when its own request
  has priority, and otherwise answers at once.
\<close>

theorem C2_request_handling:
  assumes req: "type m = REQUEST"
  shows
    "(\<not> isResourceExisting s \<and> \<not> isResourceWaiting s \<longrightarrow>
        queue (fst (processMessage lc s m)) = queue s \<and>
        sent_messages (snd (processMessage lc s m)) =
          [\<lparr> type = RESPONSE, originNode = nodeId s, timestamp_cm = timestamp s \<rparr>]) \<and>
     (isResourceExisting s \<longrightarrow>
        queue (fst (processMessage lc s m)) = queue s @ [(originNode m, timestamp_cm m)] \<and>
        sent_messages (snd (processMessage lc s m)) = []) \<and>
     (\<not> isResourceExisting s \<and> isResourceWaiting s \<and> local_priority s m \<longrightarrow>
        queue (fst (processMessage lc s m)) = queue s @ [(originNode m, timestamp_cm m)] \<and>
        sent_messages (snd (processMessage lc s m)) = []) \<and>
     (\<not> isResourceExisting s \<and> isResourceWaiting s \<and> \<not> local_priority s m \<longrightarrow>
        queue (fst (processMessage lc s m)) = queue s \<and>
        sent_messages (snd (processMessage lc s m)) =
          [\<lparr> type = RESPONSE, originNode = nodeId s, timestamp_cm = timestamp s \<rparr>])"
  by (simp add: processMessage_REQUEST[OF req] processRequest_def local_priority_def
      sendResponse_def)

lemma request_a1_type: "type request_a1 = REQUEST"
  by (simp add: request_a1_def)

lemma less_b_a: "\<not> ''b'' < ''a''"
  by (simp add: less_char_def)

theorem C2_request_handling_witness:
  "type request_a1 = REQUEST \<and>
   isResourceExisting holder_b \<and>
   queue (fst (processMessage codeUnitCompare holder_b request_a1)) = [(''a'', 1)] \<and>
   \<not> isResourceExisting waiter_a1 \<and> isResourceWaiting waiter_a1 \<and>
   \<not> local_priority waiter_a1 request_a1 \<and>
   sent_messages (snd (processMessage codeUnitCompare waiter_a1 request_a1)) =
     [\<lparr> type = RESPONSE, originNode = ''a'', timestamp_cm = 1 \<rparr>]"
proof -
  have np: "\<not> local_priority waiter_a1 request_a1"
    by (simp add: local_priority_def waiter_a1_value request_a1_def)
  have w: "\<not> isResourceExisting waiter_a1" "isResourceWaiting waiter_a1"
    "nodeId waiter_a1 = ''a''" "timestamp waiter_a1 = 1"
    by (simp_all add: waiter_a1_value)
  have h: "isResourceExisting holder_b" "queue holder_b = []"
    by (simp_all add: holder_b_value)
  have r: "originNode request_a1 = ''a''" "timestamp_cm request_a1 = 1"
    by (simp_all add: request_a1_def)
  from C2_request_handling[OF request_a1_type, of holder_b codeUnitCompare]
       C2_request_handling[OF request_a1_type, of waiter_a1 codeUnitCompare]
       np w h r request_a1_type
  show ?thesis by simp
qed

text \<open>
  The claim as stated fails on a holder whose request does not have priority: node
  \<open>b\<close> holds with timestamp 1 and receives the request of \<open>a\<close> with timestamp 1; its
  own request does not have priority, and yet it puts \<open>a\<close> in its queue and sends
  no response.
\<close>

theorem C2_holder_without_priority_defers:
  "isResourceExisting holder_b \<and>
   \<not> local_priority holder_b request_a1 \<and>
   queue (fst (processMessage codeUnitCompare holder_b request_a1)) = [(''a'', 1)] \<and>
   sent_messages (snd (processMessage codeUnitCompare holder_b request_a1)) = []"
  by (simp add: holder_b_value request_a1_def local_priority_def processMessage_def
      processRequest_def less_b_a)

subsection \<open>The grant condition\<close>

lemma giveResource_sets [simp]:
  "receivedMessages (fst (giveResource s)) = receivedMessages s"
  "knownNodes (fst (giveResource s)) = knownNodes s"
  "isResourceExisting (fst (giveResource s))"
  by (simp_all add: giveResource_def)

lemma verifyResponse_granted:
  "\<not> isResourceExisting s \<Longrightarrow>
   isResourceExisting (fst (verifyResponse s)) \<longleftrightarrow>
     fcard (knownNodes s) \<le> fcard (receivedMessages s)"
  by (simp add: verifyResponse_def)

lemma verifyResponse_sets [simp]:
  "receivedMessages (fst (verifyResponse s)) = receivedMessages s"
  "knownNodes (fst (verifyResponse s)) = knownNodes s"
  by (simp_all add: verifyResponse_def)

lemma full_acks_iff:
  "acks |\<subseteq>| known \<Longrightarrow> fcard known \<le> fcard acks \<longleftrightarrow> known |\<subseteq>| acks"
  using fcard_seteq[of acks known] fcard_mono[of known acks] by auto

text \<open>
  The acknowledgements are always among the known nodes: \<open>processMessage\<close> records
  the sender before it records the acknowledgement, \<open>requestResource\<close> empties the
  acknowledgements, and nothing removes a known node.
\<close>

lemma processMessage_knownNodes:
  "knownNodes (fst (processMessage lc s m)) = finsert (originNode m) (knownNodes s)"
  by (cases "type m")
     (simp_all add: processMessage_def Let_def processRequest_def processResponse_def
        processRelease_def processQueue_state case_prod_unfold)

lemma processMessage_receivedMessages:
  "receivedMessages (fst (processMessage lc s m)) =
     (if type m = RESPONSE \<and> isResourceWaiting s
      then finsert (originNode m) (receivedMessages s) else receivedMessages s)"
  by (cases "type m")
     (simp_all add: processMessage_def Let_def processRequest_def processResponse_def
        processRelease_def processQueue_state case_prod_unfold)

lemma acks_known_processMessage:
  "receivedMessages s |\<subseteq>| knownNodes s \<Longrightarrow>
   receivedMessages (fst (processMessage lc s m)) |\<subseteq>| knownNodes (fst (processMessage lc s m))"
  by (auto simp: processMessage_knownNodes processMessage_receivedMessages)

lemma acks_known_requestResource:
  "receivedMessages s |\<subseteq>| knownNodes s \<Longrightarrow>
   receivedMessages (fst (requestResource s)) |\<subseteq>| knownNodes (fst (requestResource s))"
  by (simp add: requestResource_def Let_def case_prod_unfold)

lemma acks_known_releaseResource:
  "receivedMessages s |\<subseteq>| knownNodes s \<Longrightarrow>
   receivedMessages (fst (releaseResource lc s)) |\<subseteq>| knownNodes (fst (releaseResource lc s))"
  by (simp add: releaseResource_def Let_def case_prod_unfold processQueue_state)

text \<open>A coordinator is never waiting and holding at once.\<close>

lemma flags_exclusive_processMessage:
  "\<not> (isResourceWaiting s \<and> isResourceExisting s) \<Longrightarrow>
   \<not> (isResourceWaiting (fst (processMessage lc s m)) \<and>
      isResourceExisting (fst (processMessage lc s m)))"
  by (cases "type m")
     (auto simp: processMessage_def Let_def processRequest_def processResponse_def
        processRelease_def processQueue_state case_prod_unfold verifyResponse_def
        giveResource_def)

lemma flags_exclusive_requestResource:
  "\<not> (isResourceWaiting s \<and> isResourceExisting s) \<Longrightarrow>
   \<not> (isResourceWaiting (fst (requestResource s)) \<and>
      isResourceExisting (fst (requestResource s)))"
  by (auto simp: requestResource_def Let_def case_prod_unfold verifyResponse_def
      giveResource_def)

lemma flags_exclusive_releaseResource:
  "\<not> (isResourceWaiting s \<and> isResourceExisting s) \<Longrightarrow>
   \<not> (isResourceWaiting (fst (releaseResource lc s)) \<and>
      isResourceExisting (fst (releaseResource lc s)))"
  by (auto simp: releaseResource_def Let_def case_prod_unfold processQueue_state)

text \<open>
  C3, as the code has it: a node that is waiting is granted the resource by a message
  exactly when the message is a RESPONSE and, once its sender has been recorded as
  known and as having acknowledged, every node known at that moment has acknowledged.
  The known nodes are those at the moment of the check, with every node learned since
  the request was issued.
\<close>

theorem C3_grant_condition:
  assumes waiting: "isResourceWaiting s"
    and not_holding: "\<not> isResourceExisting s"
    and acks: "receivedMessages s |\<subseteq>| knownNodes s"
  shows "isResourceExisting (fst (processMessage lc s m)) \<longleftrightarrow>
           type m = RESPONSE \<and>
           knownNodes (fst (processMessage lc s m)) |\<subseteq>|
             receivedMessages (fst (processMessage lc s m))"
proof (cases "type m")
  case REQUEST
  with not_holding show ?thesis
    by (simp add: processMessage_def Let_def processRequest_def)
next
  case RELEASE
  with not_holding show ?thesis
    by (simp add: processMessage_def Let_def processRelease_def processQueue_state
        case_prod_unfold)
next
  case RESPONSE
  let ?s1 = "s\<lparr> knownNodes := finsert (originNode m) (knownNodes s),
                receivedMessages := finsert (originNode m) (receivedMessages s) \<rparr>"
  have pm: "fst (processMessage lc s m) = fst (verifyResponse ?s1)"
    using RESPONSE waiting
    by (simp add: processMessage_def Let_def processResponse_def case_prod_unfold)
  have sub: "receivedMessages ?s1 |\<subseteq>| knownNodes ?s1" using acks by auto
  have nh: "\<not> isResourceExisting ?s1" using not_holding by simp
  show ?thesis
    using RESPONSE verifyResponse_granted[OF nh] full_acks_iff[OF sub]
    by (simp add: pm)
qed

theorem C3_grant_condition_witness:
  "isResourceWaiting waiter_a2 \<and> \<not> isResourceExisting waiter_a2 \<and>
   receivedMessages waiter_a2 |\<subseteq>| knownNodes waiter_a2 \<and>
   \<not> isResourceExisting
       (fst (processMessage codeUnitCompare waiter_a2
          \<lparr> type = RESPONSE, originNode = ''b'', timestamp_cm = 0 \<rparr>))"
proof -
  have a: "isResourceWaiting waiter_a2" "\<not> isResourceExisting waiter_a2"
    "receivedMessages waiter_a2 |\<subseteq>| knownNodes waiter_a2"
    by (simp_all add: waiter_a2_value)
  have "\<not> knownNodes waiter_a3 |\<subseteq>| receivedMessages waiter_a3"
    by (simp add: waiter_a3_value)
  with C3_grant_condition[OF a, of codeUnitCompare
      "\<lparr> type = RESPONSE, originNode = ''b'', timestamp_cm = 0 \<rparr>"] a
  show ?thesis by (simp add: waiter_a3_def)
qed

text \<open>
  The claim as stated fails: node \<open>a\<close> knows \<open>b\<close> alone when it issues its request,
  learns \<open>c\<close> from a REQUEST while it waits, and then receives the RESPONSE of \<open>b\<close>.
  Every node known when the request was issued has acknowledged, and the node is
  still waiting and not granted.
\<close>

theorem C3_late_node_blocks_grant:
  "isResourceWaiting waiter_a1 \<and>
   knownNodes waiter_a1 |\<subseteq>| receivedMessages waiter_a3 \<and>
   isResourceWaiting waiter_a3 \<and> \<not> isResourceExisting waiter_a3"
  by (simp add: waiter_a1_value waiter_a3_value)

subsection \<open>Releasing and draining the queue\<close>

lemma mset_insert_cmp: "mset (insert_cmp c x xs) = add_mset x (mset xs)"
  by (induction xs) auto

lemma mset_sort_cmp: "mset (sort_cmp c xs) = mset xs"
  by (induction xs) (auto simp: sort_cmp_def mset_insert_cmp)

lemma set_insert_cmp: "set (insert_cmp c x xs) = insert x (set xs)"
  by (induction xs) auto

lemma sorted_insert_cmp:
  assumes total: "\<And>a b. c a b \<le> 0 \<or> c b a \<le> 0"
    and trans: "\<And>a b d. c a b \<le> 0 \<Longrightarrow> c b d \<le> 0 \<Longrightarrow> c a d \<le> 0"
  shows "sorted_wrt (\<lambda>a b. c a b \<le> 0) xs \<Longrightarrow>
         sorted_wrt (\<lambda>a b. c a b \<le> 0) (insert_cmp c x xs)"
proof (induction xs)
  case Nil
  then show ?case by simp
next
  case (Cons y ys)
  show ?case
  proof (cases "c x y \<le> 0")
    case True
    with Cons.prems trans show ?thesis by auto
  next
    case False
    with total have "c y x \<le> 0" by blast
    with False Cons show ?thesis by (auto simp: set_insert_cmp)
  qed
qed

lemma sorted_sort_cmp:
  assumes total: "\<And>a b. c a b \<le> 0 \<or> c b a \<le> 0"
    and trans: "\<And>a b d. c a b \<le> 0 \<Longrightarrow> c b d \<le> 0 \<Longrightarrow> c a d \<le> 0"
  shows "sorted_wrt (\<lambda>a b. c a b \<le> 0) (sort_cmp c xs)"
proof (induction xs)
  case Nil
  show ?case by (simp add: sort_cmp_def)
next
  case (Cons x xs)
  have "sort_cmp c (x # xs) = insert_cmp c x (sort_cmp c xs)" by (simp add: sort_cmp_def)
  with Cons sorted_insert_cmp[of c, OF total trans] show ?case by simp
qed

lemma compareQueue_le: "compareQueue lc a b \<le> 0 \<longleftrightarrow> queue_le lc a b"
  by (auto simp: compareQueue_def queue_le_def)

lemma queue_le_total:
  assumes total: "\<forall>a b. lc a b \<le> 0 \<or> lc b a \<le> 0"
  shows "queue_le lc x y \<or> queue_le lc y x"
proof (cases "snd x = snd y")
  case True
  with total show ?thesis by (simp add: queue_le_def)
next
  case False
  then have "snd x < snd y \<or> snd y < snd x" by linarith
  then show ?thesis by (auto simp: queue_le_def)
qed

lemma queue_le_trans:
  assumes trans: "\<forall>a b d. lc a b \<le> 0 \<and> lc b d \<le> 0 \<longrightarrow> lc a d \<le> 0"
    and xy: "queue_le lc x y" and yz: "queue_le lc y z"
  shows "queue_le lc x z"
proof (cases "snd x = snd y \<and> snd y = snd z")
  case True
  with xy yz have "lc (fst x) (fst y) \<le> 0" "lc (fst y) (fst z) \<le> 0"
    by (simp_all add: queue_le_def)
  with trans have "lc (fst x) (fst z) \<le> 0" by blast
  with True show ?thesis by (simp add: queue_le_def)
next
  case False
  from xy yz have "snd x \<le> snd y" "snd y \<le> snd z"
    by (auto simp: queue_le_def)
  with False have "snd x < snd z" by linarith
  then show ?thesis by (simp add: queue_le_def)
qed

lemma response_destinations_drain:
  "response_destinations (concat (map (\<lambda>e. [LogResponseTo (fst e), Sent m]) q)) = map fst q"
  by (induction q) auto

lemma sent_messages_drain:
  "sent_messages (concat (map (\<lambda>e. [LogResponseTo (fst e), Sent m]) q)) = replicate (length q) m"
  by (induction q) auto

text \<open>
  C5: \<open>releaseResource\<close> on a holder clears \<open>isResourceExisting\<close> and
  \<open>isResourceWaiting\<close>, sends one RELEASE and then one RESPONSE for each entry of the
  queue, and leaves the queue empty. The requesters are answered in ascending order of
  timestamp and then of identifier: the destinations logged are those of a
  rearrangement of the queue that is sorted by \<open>queue_le\<close>. The order of identifiers
  is the one \<open>localeCompare\<close> gives, taken to be a total preorder.
\<close>

theorem C5_release_drains_in_order:
  assumes holding: "isResourceExisting s"
    and total: "\<forall>a b. lc a b \<le> 0 \<or> lc b a \<le> 0"
    and trans: "\<forall>a b d. lc a b \<le> 0 \<and> lc b d \<le> 0 \<longrightarrow> lc a d \<le> 0"
  shows "fst (releaseResource lc s) =
           s\<lparr> isResourceExisting := False, isResourceWaiting := False, queue := [] \<rparr> \<and>
         sent_messages (snd (releaseResource lc s)) =
           \<lparr> type = RELEASE, originNode = nodeId s, timestamp_cm = timestamp s \<rparr> #
           replicate (length (queue s))
             \<lparr> type = RESPONSE, originNode = nodeId s, timestamp_cm = timestamp s \<rparr> \<and>
         (\<exists>q. mset q = mset (queue s) \<and> sorted_wrt (queue_le lc) q \<and>
              response_destinations (snd (releaseResource lc s)) = map fst q)"
proof -
  let ?s1 = "s\<lparr> isResourceExisting := False, isResourceWaiting := False \<rparr>"
  let ?q = "sort_cmp (compareQueue lc) (queue s)"
  let ?response = "\<lparr> type = RESPONSE, originNode = nodeId s, timestamp_cm = timestamp s \<rparr>"
  obtain s2 es where pq: "processQueue lc ?s1 = (s2, es)" by (cases "processQueue lc ?s1")
  have s2: "s2 = ?s1\<lparr> queue := [] \<rparr>" using processQueue_state[of lc ?s1] pq by simp
  have es: "es = concat (map (\<lambda>e. [LogResponseTo (fst e), Sent ?response]) ?q)"
    using processQueue_effects[of lc ?s1] pq by simp
  have rel: "releaseResource lc s =
      (s2, [LogInfo, Sent \<lparr> type = RELEASE, originNode = nodeId s, timestamp_cm = timestamp s \<rparr>] @ es)"
    using holding pq by (simp add: releaseResource_def)
  have tot: "compareQueue lc a b \<le> 0 \<or> compareQueue lc b a \<le> 0" for a b
    unfolding compareQueue_le by (rule queue_le_total[OF total])
  have tr: "compareQueue lc a d \<le> 0"
    if "compareQueue lc a b \<le> 0" "compareQueue lc b d \<le> 0" for a b d
    using that unfolding compareQueue_le by (rule queue_le_trans[OF trans])
  have "sorted_wrt (\<lambda>a b. compareQueue lc a b \<le> 0) ?q"
    by (rule sorted_sort_cmp[OF tot tr])
  then have sorted: "sorted_wrt (queue_le lc) ?q" by (simp add: compareQueue_le)
  have perm: "mset ?q = mset (queue s)" by (rule mset_sort_cmp)
  then have len: "length ?q = length (queue s)" by (metis size_mset)
  have 1: "fst (releaseResource lc s) =
           s\<lparr> isResourceExisting := False, isResourceWaiting := False, queue := [] \<rparr>"
    using rel s2 by simp
  have 2: "sent_messages (snd (releaseResource lc s)) =
           \<lparr> type = RELEASE, originNode = nodeId s, timestamp_cm = timestamp s \<rparr> #
           replicate (length (queue s)) ?response"
    using rel es len by (simp add: sent_messages_drain)
  have 3: "response_destinations (snd (releaseResource lc s)) = map fst ?q"
    using rel es by (simp add: response_destinations_drain)
  from 1 2 3 sorted perm show ?thesis by blast
qed

lemma codeUnitCompare_total: "\<forall>a b. codeUnitCompare a b \<le> 0 \<or> codeUnitCompare b a \<le> 0"
proof (intro allI)
  fix a b :: string
  have "a < b \<or> a = b \<or> b < a" by (rule less_linear)
  then show "codeUnitCompare a b \<le> 0 \<or> codeUnitCompare b a \<le> 0"
    by (auto simp: codeUnitCompare_def)
qed

lemma codeUnitCompare_trans:
  "\<forall>a b d. codeUnitCompare a b \<le> 0 \<and> codeUnitCompare b d \<le> 0 \<longrightarrow> codeUnitCompare a d \<le> 0"
proof (intro allI impI)
  fix a b d :: string
  assume "codeUnitCompare a b \<le> 0 \<and> codeUnitCompare b d \<le> 0"
  then have "a \<le> b" "b \<le> d"
    by (auto simp: codeUnitCompare_def split: if_splits)
  then have "a \<le> d" by (rule order_trans)
  then show "codeUnitCompare a d \<le> 0"
    by (auto simp: codeUnitCompare_def)
qed

lemma holder_with_queue_value:
  "holder_with_queue =
     \<lparr> nodeId = ''b'', isResourceWaiting = False, isResourceExisting = True,
       timestamp = 1, queue = [(''c'', 2), (''a'', 1)], receivedMessages = {||},
       knownNodes = {|''a'', ''c''|} \<rparr>"
  by (simp add: holder_with_queue_def holder_b_value request_a1_def processMessage_def
      Let_def processRequest_def finsert_commute)

theorem C5_release_drains_in_order_witness:
  "isResourceExisting holder_with_queue \<and>
   queue (fst (releaseResource codeUnitCompare holder_with_queue)) = [] \<and>
   sent_messages (snd (releaseResource codeUnitCompare holder_with_queue)) =
     [\<lparr> type = RELEASE, originNode = ''b'', timestamp_cm = 1 \<rparr>,
      \<lparr> type = RESPONSE, originNode = ''b'', timestamp_cm = 1 \<rparr>,
      \<lparr> type = RESPONSE, originNode = ''b'', timestamp_cm = 1 \<rparr>]"
proof -
  have h: "isResourceExisting holder_with_queue" by (simp add: holder_with_queue_value)
  have v: "nodeId holder_with_queue = ''b''" "timestamp holder_with_queue = 1"
    "length (queue holder_with_queue) = 2"
    by (simp_all add: holder_with_queue_value)
  note c5 = C5_release_drains_in_order[OF h codeUnitCompare_total codeUnitCompare_trans]
  from c5 have st: "fst (releaseResource codeUnitCompare holder_with_queue) =
      holder_with_queue\<lparr> isResourceExisting := False, isResourceWaiting := False, queue := [] \<rparr>"
    by (rule conjunct1)
  from c5 have sent: "sent_messages (snd (releaseResource codeUnitCompare holder_with_queue)) =
      \<lparr> type = RELEASE, originNode = nodeId holder_with_queue,
        timestamp_cm = timestamp holder_with_queue \<rparr> #
      replicate (length (queue holder_with_queue))
        \<lparr> type = RESPONSE, originNode = nodeId holder_with_queue,
          timestamp_cm = timestamp holder_with_queue \<rparr>"
    by (rule conjunct1[OF conjunct2])
  have q: "queue (fst (releaseResource codeUnitCompare holder_with_queue)) = []"
    by (simp add: st)
  have m: "sent_messages (snd (releaseResource codeUnitCompare holder_with_queue)) =
     [\<lparr> type = RELEASE, originNode = ''b'', timestamp_cm = 1 \<rparr>,
      \<lparr> type = RESPONSE, originNode = ''b'', timestamp_cm = 1 \<rparr>,
      \<lparr> type = RESPONSE, originNode = ''b'', timestamp_cm = 1 \<rparr>]"
    by (simp add: sent v numeral_2_eq_2)
  show ?thesis
    by (intro conjI h q m)
qed

subsection \<open>Responses carry no destination\<close>

text \<open>
  C9: the control message that \<open>sendResponse\<close> hands to the transport has the three
  fields type, originNode and timestamp, and is the same whatever the destination;
  the transport sends every payload as one datagram to the port and address of the
  group; and a node that is waiting and processes a RESPONSE has the sender of that
  RESPONSE among its acknowledgements afterwards, whoever the response was meant for.
\<close>

theorem C9_response_counts_for_every_waiter:
  "sent_messages (sendResponse destination s) =
     [\<lparr> type = RESPONSE, originNode = nodeId s, timestamp_cm = timestamp s \<rparr>] \<and>
   sent_messages (sendResponse destination s) = sent_messages (sendResponse destination' s) \<and>
   hd (sendMessage JSON_stringify send_failed comm payload) =
     SocketSend (JSON_stringify payload) (port comm) (address comm) \<and>
   (isResourceWaiting w \<and> type m = RESPONSE \<longrightarrow>
      originNode m |\<in>| receivedMessages (fst (processMessage lc w m)))"
  by (simp add: sendResponse_def sendMessage_def processMessage_receivedMessages)

theorem C9_response_counts_for_every_waiter_witness:
  "isResourceWaiting waiter_a2 \<and>
   type \<lparr> type = RESPONSE, originNode = ''b'', timestamp_cm = 0 \<rparr> = RESPONSE \<and>
   ''b'' |\<in>| receivedMessages
      (fst (processMessage codeUnitCompare waiter_a2
         \<lparr> type = RESPONSE, originNode = ''b'', timestamp_cm = 0 \<rparr>))"
proof -
  have w: "isResourceWaiting waiter_a2" by (simp add: waiter_a2_value)
  have "isResourceWaiting waiter_a2 \<and>
        type \<lparr> type = RESPONSE, originNode = ''b'', timestamp_cm = 0 \<rparr> = RESPONSE \<longrightarrow>
        originNode \<lparr> type = RESPONSE, originNode = ''b'', timestamp_cm = 0 \<rparr> |\<in>|
          receivedMessages (fst (processMessage codeUnitCompare waiter_a2
            \<lparr> type = RESPONSE, originNode = ''b'', timestamp_cm = 0 \<rparr>))"
    by (rule conjunct2[OF conjunct2[OF conjunct2[OF
          C9_response_counts_for_every_waiter[where w = waiter_a2
            and m = "\<lparr> type = RESPONSE, originNode = ''b'', timestamp_cm = 0 \<rparr>"
            and lc = codeUnitCompare and destination = "''c''" and destination' = "''b''"
            and s = waiter_a2 and send_failed = False and comm = transport_n1
            and payload = "()" and JSON_stringify = "\<lambda>u. ''null''"]]]])
  with w show ?thesis by simp
qed

subsection \<open>Two holders at once\<close>

text \<open>The run, stage by stage; no datagram is outstanding at the end of a stage.\<close>

lemma run_B_is_granted:
  "map_option (\<lambda>net. (view net, pending net))
     (run codeUnitCompare B_is_granted (start_network [''A'', ''B'', ''C''])) =
   Some ([(''A'', False, False, 1, []), (''B'', False, True, 1, []),
          (''C'', False, False, 0, [])], [])"
  by code_simp

lemma run_A_requests:
  "map_option (\<lambda>net. (view net, pending net))
     (run codeUnitCompare (B_is_granted @ A_requests) (start_network [''A'', ''B'', ''C''])) =
   Some ([(''A'', True, False, 2, []), (''B'', False, True, 1, [(''A'', 2)]),
          (''C'', False, False, 0, [])], [])"
  by code_simp

lemma run_C_requests:
  "map_option (\<lambda>net. (view net, pending net))
     (run codeUnitCompare (B_is_granted @ A_requests @ C_requests)
        (start_network [''A'', ''B'', ''C''])) =
   Some ([(''A'', True, False, 2, []), (''B'', False, True, 1, [(''A'', 2), (''C'', 1)]),
          (''C'', True, False, 1, [])], [])"
  by code_simp

lemma run_B_releases:
  "map_option (\<lambda>net. (view net, pending net))
     (run codeUnitCompare two_holders_run (start_network [''A'', ''B'', ''C''])) =
   Some ([(''A'', False, True, 2, []), (''B'', False, False, 1, []),
          (''C'', False, True, 1, [])], [])"
  by code_simp

text \<open>
  C1 fails on the code. Three fresh nodes A, B and C; every datagram sent is received
  by every member, in the order sent. A takes and releases the resource while it
  knows nobody, which makes it known; B requests and is granted. While B holds, A
  requests with timestamp 2: B defers it and C, which is idle, acknowledges it. Then C
  requests with timestamp 1, its first request, although it has already seen the
  request of A with timestamp 2: B defers it, and A acknowledges it because 1 is the
  smaller timestamp. A and C now each lack the acknowledgement of B alone, and the
  release of B answers both deferred requests: A and C hold the resource together,
  with no datagram outstanding.
\<close>

theorem C1_two_nodes_hold_at_once:
  "map_option outcome (run codeUnitCompare two_holders_run (start_network [''A'', ''B'', ''C'']))
     = Some ([''A'', ''C''], [])"
  by code_simp

text \<open>Two fresh nodes that request before any datagram was sent both hold, too.\<close>

lemma fresh_pair_both_hold:
  "map_option outcome (run codeUnitCompare fresh_pair_run (start_network [''A'', ''B'']))
     = Some ([''A'', ''B''], [])"
  by code_simp

section \<open>Properties of the transport\<close>

text \<open>
  C6, as the code has it. A datagram that does not parse, and a datagram that parses
  to \<open>null\<close>, are dropped with one logged error and without a call of the handler; a
  payload whose \<open>origin\<close> or \<open>originNode\<close> is the identifier of the local node is
  dropped with no effect at all; every other payload is given to the handler exactly
  once. Nothing is thrown past the handler of the socket: its result is always a list
  of effects.
\<close>

theorem C6_inbound_dispatch:
  "(JSON_parse msg = None \<or> JSON_parse msg = Some JNull \<longrightarrow>
      onMessage JSON_parse handler_throws comm msg = [TransportLogError]) \<and>
   (\<forall>d. JSON_parse msg = Some d \<and> d \<noteq> JNull \<and>
        (getProperty d ''origin'' = Inr (Some (JString (nodeId_mc comm))) \<or>
         getProperty d ''originNode'' = Inr (Some (JString (nodeId_mc comm)))) \<longrightarrow>
      onMessage JSON_parse handler_throws comm msg = []) \<and>
   (\<forall>d. JSON_parse msg = Some d \<and> d \<noteq> JNull \<and>
        getProperty d ''origin'' \<noteq> Inr (Some (JString (nodeId_mc comm))) \<and>
        getProperty d ''originNode'' \<noteq> Inr (Some (JString (nodeId_mc comm))) \<longrightarrow>
      handler_calls (onMessage JSON_parse handler_throws comm msg) = [d])"
proof (intro conjI allI impI)
  assume "JSON_parse msg = None \<or> JSON_parse msg = Some JNull"
  then show "onMessage JSON_parse handler_throws comm msg = [TransportLogError]"
    by (auto simp: onMessage_def getProperty_def)
next
  fix d
  assume a: "JSON_parse msg = Some d \<and> d \<noteq> JNull \<and>
        (getProperty d ''origin'' = Inr (Some (JString (nodeId_mc comm))) \<or>
         getProperty d ''originNode'' = Inr (Some (JString (nodeId_mc comm))))"
  then show "onMessage JSON_parse handler_throws comm msg = []"
    by (cases d) (auto simp: onMessage_def getProperty_def)
next
  fix d
  assume a: "JSON_parse msg = Some d \<and> d \<noteq> JNull \<and>
        getProperty d ''origin'' \<noteq> Inr (Some (JString (nodeId_mc comm))) \<and>
        getProperty d ''originNode'' \<noteq> Inr (Some (JString (nodeId_mc comm)))"
  then show "handler_calls (onMessage JSON_parse handler_throws comm msg) = [d]"
    by (cases d) (auto simp: onMessage_def getProperty_def)
qed

theorem C6_inbound_dispatch_witness:
  "parse_fixed_object ''['' = None \<and>
   onMessage parse_fixed_object never_throws transport_n1 ''['' = [TransportLogError] \<and>
   parse_fixed_object ''{}'' = Some (JObject [(''originNode'', JString ''n2'')]) \<and>
   handler_calls (onMessage parse_fixed_object never_throws transport_n1 ''{}'') =
     [JObject [(''originNode'', JString ''n2'')]] \<and>
   parse_own_object ''{}'' = Some (JObject [(''originNode'', JString ''n1'')]) \<and>
   onMessage parse_own_object never_throws transport_n1 ''{}'' = []"
proof -
  have p1: "parse_fixed_object ''['' = None"
    and p2: "parse_fixed_object ''{}'' = Some (JObject [(''originNode'', JString ''n2'')])"
    and p3: "parse_own_object ''{}'' = Some (JObject [(''originNode'', JString ''n1'')])"
    by (simp_all add: parse_fixed_object_def parse_own_object_def)
  have g: "getProperty (JObject [(''originNode'', JString ''n2'')]) ''origin'' = Inr None"
    "getProperty (JObject [(''originNode'', JString ''n2'')]) ''originNode'' =
       Inr (Some (JString ''n2''))"
    "getProperty (JObject [(''originNode'', JString ''n1'')]) ''originNode'' =
       Inr (Some (JString ''n1''))"
    "nodeId_mc transport_n1 = ''n1''"
    by (simp_all add: getProperty_def transport_n1_def)
  from C6_inbound_dispatch[of parse_fixed_object "''[''" never_throws transport_n1] p1
  have 1: "onMessage parse_fixed_object never_throws transport_n1 ''['' = [TransportLogError]"
    by blast
  from C6_inbound_dispatch[of parse_fixed_object "''{}''" never_throws transport_n1] p2 g
  have 2: "handler_calls (onMessage parse_fixed_object never_throws transport_n1 ''{}'') =
     [JObject [(''originNode'', JString ''n2'')]]"
    by simp
  from C6_inbound_dispatch[of parse_own_object "''{}''" never_throws transport_n1] p3 g
  have 3: "onMessage parse_own_object never_throws transport_n1 ''{}'' = []"
    by simp
  from p1 p2 p3 1 2 3 show ?thesis by blast
qed

text \<open>
  The claim as stated fails on the datagram \<open>null\<close>: it is deserialised without an
  error, it has no origin equal to the local identifier, and the handler is not called;
  reading \<open>origin\<close> of \<open>null\<close> throws, and the \<open>catch\<close> logs an error.
\<close>

theorem C6_null_payload_not_dispatched:
  "parse_null_only ''null'' = Some JNull \<and>
   handler_calls (onMessage parse_null_only never_throws transport_n1 ''null'') = [] \<and>
   onMessage parse_null_only never_throws transport_n1 ''null'' = [TransportLogError]"
  by (simp add: parse_null_only_def onMessage_def getProperty_def)

section \<open>Properties of the checkpoints\<close>

text \<open>
  C10: when two calls of \<open>createCheckpoint\<close> of one node read the same value of
  \<open>Date.now()\<close>, the insertion of the second call violates the primary key, the
  second call returns the empty string, and the table after it is the table before it.
\<close>

theorem C10_same_millisecond:
  "insertRow \<lparr> id_row = checkpointId nodId now, node_id = nodId, timestamp_row = now,
               data = JSON_stringify msgs2 \<rparr>
     (fst (createCheckpoint JSON_stringify nodId now msgs1 tbl)) = Inl PrimaryKeyConstraint \<and>
   createCheckpoint JSON_stringify nodId now msgs2
     (fst (createCheckpoint JSON_stringify nodId now msgs1 tbl)) =
   (fst (createCheckpoint JSON_stringify nodId now msgs1 tbl), [])"
  by (simp add: createCheckpoint_def insertRow_def)

lemma greatestRow_last:
  "\<forall>x \<in> set (best # rs). timestamp_row x < timestamp_row r \<Longrightarrow>
   greatestRow best (rs @ [r]) = r"
  by (induction rs arbitrary: best) auto

lemma greatestRow_filter_last:
  assumes "\<forall>x \<in> set rows. timestamp_row x < timestamp_row r"
  shows "(case rows @ [r] of [] \<Rightarrow> None | y # ys \<Rightarrow> Some (greatestRow y ys)) = Some r"
proof (cases rows)
  case Nil
  then show ?thesis by simp
next
  case (Cons y ys)
  with assms greatestRow_last[of y ys r] show ?thesis by simp
qed

text \<open>
  C8, as the code has it: when the serialisation loses nothing of the snapshot, no row
  of the table has the identifier of the new checkpoint, and every row of this node
  has a timestamp smaller than the value of \<open>Date.now()\<close> read by
  \<open>createCheckpoint\<close>, then \<open>createCheckpoint\<close> returns the new identifier and
  \<open>recoverState\<close> right after it returns the snapshot.
\<close>

theorem C8_checkpoint_round_trip:
  assumes roundtrip: "JSON_parse (JSON_stringify msgs) = Some msgs"
    and fresh: "checkpointId nodId now \<notin> set (map id_row tbl)"
    and newest: "\<forall>r \<in> set tbl. node_id r = nodId \<longrightarrow> timestamp_row r < now"
  shows "snd (createCheckpoint JSON_stringify nodId now msgs tbl) = checkpointId nodId now \<and>
         recoverState JSON_parse nodId
           (fst (createCheckpoint JSON_stringify nodId now msgs tbl)) = msgs"
proof -
  let ?row = "\<lparr> id_row = checkpointId nodId now, node_id = nodId, timestamp_row = now,
                 data = JSON_stringify msgs \<rparr>"
  let ?mine = "filter (\<lambda>r. node_id r = nodId) tbl"
  have created: "createCheckpoint JSON_stringify nodId now msgs tbl =
      (tbl @ [?row], checkpointId nodId now)"
    using fresh by (simp add: createCheckpoint_def insertRow_def)
  have sel: "filter (\<lambda>r. node_id r = nodId) (tbl @ [?row]) = ?mine @ [?row]"
    by simp
  have "\<forall>x \<in> set ?mine. timestamp_row x < timestamp_row ?row"
    using newest by simp
  from greatestRow_filter_last[OF this]
  have "(case ?mine @ [?row] of [] \<Rightarrow> None | y # ys \<Rightarrow> Some (greatestRow y ys)) = Some ?row" .
  then have "getLastCheckpoint JSON_parse nodId (tbl @ [?row]) =
      Some \<lparr> id_cp = checkpointId nodId now, messages = msgs, timestamp_cp = now \<rparr>"
    unfolding getLastCheckpoint_def sel using roundtrip
    by (cases "?mine @ [?row]") (simp_all add: Let_def)
  then show ?thesis
    by (simp add: created recoverState_def)
qed

lemma checkpointId_1000_2000: "checkpointId ''n1'' 2000 \<noteq> checkpointId ''n1'' 1000"
  by (simp add: checkpointId_def string_of_timestamp_def digits.simps)

lemma table_at_1000_value:
  "table_at_1000 =
     [\<lparr> id_row = checkpointId ''n1'' 1000, node_id = ''n1'', timestamp_row = 1000,
         data = [m1] \<rparr>]"
  by (simp add: table_at_1000_def createCheckpoint_def insertRow_def lossless_stringify_def)

theorem C8_checkpoint_round_trip_witness:
  "lossless_parse (lossless_stringify [m1, m2]) = Some [m1, m2] \<and>
   checkpointId ''n1'' 2000 \<notin> set (map id_row table_at_1000) \<and>
   timestamp_row (hd table_at_1000) < 2000 \<and> length table_at_1000 = 1 \<and>
   recoverState lossless_parse ''n1''
     (fst (createCheckpoint lossless_stringify ''n1'' 2000 [m1, m2] table_at_1000)) = [m1, m2]"
proof -
  have a: "lossless_parse (lossless_stringify [m1, m2]) = Some [m1, m2]"
    by (simp add: lossless_parse_def lossless_stringify_def)
  have b: "checkpointId ''n1'' 2000 \<notin> set (map id_row table_at_1000)"
    by (simp add: table_at_1000_value checkpointId_1000_2000)
  have c: "\<forall>r \<in> set table_at_1000. node_id r = ''n1'' \<longrightarrow> timestamp_row r < 2000"
    by (simp add: table_at_1000_value)
  have d: "timestamp_row (hd table_at_1000) < 2000" "length table_at_1000 = 1"
    by (simp_all add: table_at_1000_value)
  from C8_checkpoint_round_trip[where JSON_parse = lossless_parse
      and JSON_stringify = lossless_stringify, OF a b c] a b d
  show ?thesis by blast
qed

text \<open>
  The claim as stated fails when the table already has a checkpoint of the same
  millisecond: the first call stores the snapshot \<open>[m1]\<close>; the second call, with the
  empty snapshot and the same value of \<open>Date.now()\<close>, returns the empty string, and
  \<open>recoverState\<close> after it returns \<open>[m1]\<close>, not the empty snapshot.
\<close>

theorem C8_same_millisecond_recovers_old_snapshot:
  "snd (createCheckpoint lossless_stringify ''n1'' 1000 [] table_at_1000) = [] \<and>
   recoverState lossless_parse ''n1''
     (fst (createCheckpoint lossless_stringify ''n1'' 1000 [] table_at_1000)) = [m1] \<and>
   [m1] \<noteq> []"
  by (simp add: table_at_1000_value createCheckpoint_def insertRow_def recoverState_def
      getLastCheckpoint_def lossless_parse_def)

section \<open>Properties of the reconciler\<close>

lemma replicaIds_image: "replicaIds r = id_msg ` snd ` set r"
  by (simp add: replicaIds_def getReplicaMessage_def image_image)

lemma set_update_subset: "set (AList.update k v al) \<subseteq> insert (k, v) (set al)"
  by (induction al) auto

lemma named_by_id_update: "named_by_id u \<Longrightarrow> named_by_id (AList.update (id_msg m) m u)"
  using set_update_subset[of "id_msg m" m u] by (auto simp: named_by_id_def)

lemma named_by_id_keepNewest: "named_by_id u \<Longrightarrow> named_by_id (keepNewest m u)"
  by (simp add: keepNewest_def named_by_id_update split: option.splits)

lemma keys_keepNewest: "fst ` set (keepNewest m u) = insert (id_msg m) (fst ` set u)"
proof (cases "map_of u (id_msg m)")
  case None
  then show ?thesis by (simp add: keepNewest_def dom_update)
next
  case (Some old)
  then have "id_msg m \<in> fst ` set u"
    using map_of_eq_None_iff[of u "id_msg m"] by simp
  with Some show ?thesis by (auto simp: keepNewest_def dom_update)
qed

lemma fold_keepNewest:
  "fst ` set (fold keepNewest ms u) = id_msg ` set ms \<union> fst ` set u"
  "named_by_id u \<Longrightarrow> named_by_id (fold keepNewest ms u)"
  by (induction ms arbitrary: u) (auto simp: keys_keepNewest named_by_id_keepNewest)

lemma fold_entries:
  "fst ` set (fold (\<lambda>entry u. fold keepNewest (snd entry) u) al u) =
     (\<Union>e \<in> set al. id_msg ` set (snd e)) \<union> fst ` set u"
  "named_by_id u \<Longrightarrow> named_by_id (fold (\<lambda>entry u. fold keepNewest (snd entry) u) al u)"
  by (induction al arbitrary: u) (auto simp: fold_keepNewest)

lemma snd_getAllMessages: "map snd (getAllMessages rs) = map getReplicaMessage rs"
  unfolding getAllMessages_def by (rule map_snd_zip) (simp del: upt_Suc)

lemma set_getReplicaMessage: "id_msg ` set (getReplicaMessage r) = replicaIds r"
  by (simp add: replicaIds_def)

lemma keys_uniqueMessages:
  "fst ` set (uniqueMessages (getAllMessages rs)) = (\<Union>r \<in> set rs. replicaIds r)"
proof -
  have "(\<Union>e \<in> set (getAllMessages rs). id_msg ` set (snd e)) =
        (\<Union>ms \<in> set (map snd (getAllMessages rs)). id_msg ` set ms)"
    by auto
  also have "\<dots> = (\<Union>r \<in> set rs. replicaIds r)"
    by (simp add: snd_getAllMessages set_getReplicaMessage)
  finally show ?thesis by (simp add: uniqueMessages_def fold_entries)
qed

lemma named_by_id_uniqueMessages: "named_by_id (uniqueMessages al)"
  unfolding uniqueMessages_def by (rule fold_entries(2)) (simp add: named_by_id_def)

lemma ids_uniqueMessages:
  "id_msg ` snd ` set (uniqueMessages (getAllMessages rs)) = (\<Union>r \<in> set rs. replicaIds r)"
proof -
  have "id_msg ` snd ` set (uniqueMessages (getAllMessages rs)) =
        fst ` set (uniqueMessages (getAllMessages rs))"
    using named_by_id_uniqueMessages[of "getAllMessages rs"]
    by (force simp: named_by_id_def image_image)
  then show ?thesis by (simp add: keys_uniqueMessages)
qed

lemma set_saveMessage: "set (saveMessage n m) = {(i, m) | i. 1 \<le> i \<and> i \<le> n}"
  by (auto simp: saveMessage_def)

lemma set_reconcile:
  "set (reconcile rs) =
     {(i, m) | i m. 1 \<le> i \<and> i \<le> length rs \<and>
        (\<exists>r \<in> set rs. m \<in> set (missingMessages (uniqueMessages (getAllMessages rs))
                                   (getReplicaMessage r)))}"
proof -
  let ?u = "uniqueMessages (getAllMessages rs)"
  have "set (reconcile rs) =
      (\<Union>e \<in> set (getAllMessages rs). \<Union>m \<in> set (missingMessages ?u (snd e)).
          set (saveMessage (length rs) m))"
    by (auto simp: reconcile_def Let_def)
  also have "\<dots> = (\<Union>ms \<in> set (map snd (getAllMessages rs)). \<Union>m \<in> set (missingMessages ?u ms).
          set (saveMessage (length rs) m))"
    by force
  also have "\<dots> = (\<Union>r \<in> set rs. \<Union>m \<in> set (missingMessages ?u (getReplicaMessage r)).
          set (saveMessage (length rs) m))"
    by (simp add: snd_getAllMessages)
  finally show ?thesis by (auto simp: set_saveMessage)
qed

lemma length_completeWrite [simp]: "length (completeWrite locate w rs) = length rs"
  by (simp add: completeWrite_def split: option.splits prod.splits)

lemma length_completeWrites [simp]: "length (completeWrites locate ws rs) = length rs"
  by (induction ws arbitrary: rs) (simp_all add: completeWrites_def)

text \<open>A write whose identifier names its own file in the replica it was scheduled for.\<close>

lemma completeWrite_nth:
  "locate (fst w) (id_msg (snd w)) = Some (fst w, id_msg (snd w)) \<Longrightarrow> i < length rs \<Longrightarrow>
   completeWrite locate w rs ! i =
     (if fst w = Suc i then AList.update (id_msg (snd w)) (snd w) (rs ! i) else rs ! i)"
  by (auto simp: completeWrite_def nth_list_update)

lemma completeWrites_keys:
  "\<forall>w \<in> set ws. locate (fst w) (id_msg (snd w)) = Some (fst w, id_msg (snd w)) \<Longrightarrow>
   i < length rs \<Longrightarrow>
   fst ` set (completeWrites locate ws rs ! i) =
     fst ` set (rs ! i) \<union> {id_msg m | m. (Suc i, m) \<in> set ws}"
proof (induction ws arbitrary: rs)
  case Nil
  then show ?case by (simp add: completeWrites_def)
next
  case (Cons w ws)
  have step: "completeWrites locate (w # ws) rs =
      completeWrites locate ws (completeWrite locate w rs)"
    by (simp add: completeWrites_def)
  from Cons.prems have located: "locate (fst w) (id_msg (snd w)) = Some (fst w, id_msg (snd w))"
    and rest: "\<forall>w \<in> set ws. locate (fst w) (id_msg (snd w)) = Some (fst w, id_msg (snd w))"
    by simp_all
  from Cons.prems have i: "i < length (completeWrite locate w rs)" by simp
  show ?case
    unfolding step Cons.IH[OF rest i] completeWrite_nth[where locate = locate and w = w, OF located Cons.prems(2)]
    by (cases w) (auto simp: dom_update)
qed

lemma completeWrites_named_by_id:
  "\<forall>w \<in> set ws. locate (fst w) (id_msg (snd w)) = Some (fst w, id_msg (snd w)) \<Longrightarrow>
   i < length rs \<Longrightarrow> named_by_id (rs ! i) \<Longrightarrow>
   named_by_id (completeWrites locate ws rs ! i)"
proof (induction ws arbitrary: rs)
  case Nil
  then show ?case by (simp add: completeWrites_def)
next
  case (Cons w ws)
  have step: "completeWrites locate (w # ws) rs =
      completeWrites locate ws (completeWrite locate w rs)"
    by (simp add: completeWrites_def)
  from Cons.prems have located: "locate (fst w) (id_msg (snd w)) = Some (fst w, id_msg (snd w))"
    and rest: "\<forall>w \<in> set ws. locate (fst w) (id_msg (snd w)) = Some (fst w, id_msg (snd w))"
    by simp_all
  from Cons.prems have i: "i < length (completeWrite locate w rs)" by simp
  have "named_by_id (completeWrite locate w rs ! i)"
    using Cons.prems(2,3) by (simp add: completeWrite_nth[where locate = locate and w = w, OF located] named_by_id_update)
  from Cons.IH[OF rest i this] show ?case by (simp add: step)
qed

lemma named_by_id_ids: "named_by_id r \<Longrightarrow> replicaIds r = fst ` set r"
  by (force simp: replicaIds_image named_by_id_def image_image)

text \<open>
  Replicas that start empty and receive only writes whose identifiers name their own
  files have every file named after the message in it.
\<close>

lemma written_replicas_named:
  assumes "\<forall>w \<in> set ws. locate (fst w) (id_msg (snd w)) = Some (fst w, id_msg (snd w))"
  shows "list_all named_by_id (completeWrites locate ws (replicate n []))"
proof -
  have "named_by_id (completeWrites locate ws (replicate n []) ! i)" if "i < n" for i
  proof -
    from that have "i < length (replicate n ([] :: replica))" by simp
    moreover from that have "named_by_id (replicate n ([] :: replica) ! i)"
      by (simp add: named_by_id_def)
    ultimately show ?thesis by (rule completeWrites_named_by_id[OF assms])
  qed
  then show ?thesis by (simp add: list_all_length)
qed

text \<open>
  The writes that \<open>reconcile\<close> schedules carry identifiers of the replicas, for replica
  numbers from 1 to N.
\<close>

lemma reconcile_writes_located:
  assumes files: "ids_name_files locate rs"
    and w: "w \<in> set (reconcile rs)"
  shows "locate (fst w) (id_msg (snd w)) = Some (fst w, id_msg (snd w))"
proof -
  let ?u = "uniqueMessages (getAllMessages rs)"
  from w obtain k m where km: "w = (k, m)" "1 \<le> k" "k \<le> length rs" "m \<in> snd ` set ?u"
    by (auto simp: set_reconcile missingMessages_def)
  from km(4) have "id_msg m \<in> id_msg ` snd ` set ?u" by (rule imageI)
  then have "id_msg m \<in> (\<Union>r \<in> set rs. replicaIds r)" by (simp add: ids_uniqueMessages)
  then obtain r where "r \<in> set rs" "id_msg m \<in> replicaIds r" by blast
  with files km(2,3) have "locate k (id_msg m) = Some (k, id_msg m)"
    by (simp add: ids_name_files_def)
  with km(1) show ?thesis by simp
qed

text \<open>
  C7, as the code has it: when every file of every replica is named after the message
  in it, and every identifier in the replicas names its own file (the path that
  \<open>saveMessage\<close> builds from it is the file \<open><identifier>.json\<close> of the replica written
  to), then after one pass of \<open>reconcile\<close>, once the writes it scheduled have all
  completed, in whatever order, the identifiers in each replica are those of all the
  replicas before the pass, and the number of replicas has not changed.
\<close>

theorem C7_reconcile_converges:
  assumes named: "list_all named_by_id rs"
    and files: "ids_name_files locate rs"
    and completed: "mset ws = mset (reconcile rs)"
    and i: "i < length rs"
  shows "length (completeWrites locate ws rs) = length rs \<and>
         replicaIds (completeWrites locate ws rs ! i) = (\<Union>r \<in> set rs. replicaIds r)"
proof -
  let ?u = "uniqueMessages (getAllMessages rs)"
  let ?U = "\<Union>r \<in> set rs. replicaIds r"
  from completed have ws: "set ws = set (reconcile rs)" by (rule mset_eq_setD)
  have located: "\<forall>w \<in> set ws. locate (fst w) (id_msg (snd w)) = Some (fst w, id_msg (snd w))"
    using reconcile_writes_located[OF files] ws by blast
  from named i have ki: "named_by_id (rs ! i)"
    by (simp add: list_all_length)
  have mem: "rs ! i \<in> set rs" using i by simp
  have "replicaIds (completeWrites locate ws rs ! i) =
        fst ` set (completeWrites locate ws rs ! i)"
    by (rule named_by_id_ids[OF completeWrites_named_by_id[OF located i ki]])
  also have "\<dots> = fst ` set (rs ! i) \<union> {id_msg m | m. (Suc i, m) \<in> set ws}"
    by (rule completeWrites_keys[OF located i])
  also have "fst ` set (rs ! i) = replicaIds (rs ! i)"
    by (rule named_by_id_ids[OF ki, symmetric])
  also have "replicaIds (rs ! i) \<union> {id_msg m | m. (Suc i, m) \<in> set ws} = ?U"
  proof (intro equalityI subsetI)
    fix x assume "x \<in> replicaIds (rs ! i) \<union> {id_msg m | m. (Suc i, m) \<in> set ws}"
    then show "x \<in> ?U"
    proof
      assume "x \<in> replicaIds (rs ! i)"
      with mem show ?thesis by blast
    next
      assume "x \<in> {id_msg m | m. (Suc i, m) \<in> set ws}"
      then obtain m where m: "x = id_msg m" "(Suc i, m) \<in> set (reconcile rs)"
        using ws by auto
      then have "m \<in> snd ` set ?u"
        by (auto simp: set_reconcile missingMessages_def)
      then have "id_msg m \<in> id_msg ` snd ` set ?u" by (rule imageI)
      with m show ?thesis by (simp add: ids_uniqueMessages)
    qed
  next
    fix x assume x: "x \<in> ?U"
    show "x \<in> replicaIds (rs ! i) \<union> {id_msg m | m. (Suc i, m) \<in> set ws}"
    proof (cases "x \<in> replicaIds (rs ! i)")
      case True
      then show ?thesis by simp
    next
      case False
      from x have "x \<in> id_msg ` snd ` set ?u" by (simp add: ids_uniqueMessages)
      then obtain m where m: "m \<in> snd ` set ?u" "x = id_msg m" by blast
      with False have "m \<in> set (missingMessages ?u (getReplicaMessage (rs ! i)))"
        by (simp add: missingMessages_def replicaIds_def)
      with mem i have "(Suc i, m) \<in> set (reconcile rs)"
        unfolding set_reconcile by auto
      with m ws show ?thesis by auto
    qed
  qed
  finally show ?thesis by simp
qed

lemma three_replicas_ids: "(\<Union>r \<in> set three_replicas. replicaIds r) = {''m1'', ''m2''}"
  by (auto simp: three_replicas_def replicaIds_image m1_def m2_def)

lemma three_replicas_named: "list_all named_by_id three_replicas"
  by (simp add: three_replicas_def named_by_id_def m1_def m2_def)

lemma three_replicas_files: "ids_name_files locate_in_place three_replicas"
  by (auto simp: ids_name_files_def three_replicas_def replicaIds_image m1_def m2_def
      locate_in_place_def)

theorem C7_reconcile_converges_witness:
  "list_all named_by_id three_replicas \<and>
   ids_name_files locate_in_place three_replicas \<and>
   mset (rev (reconcile three_replicas)) = mset (reconcile three_replicas) \<and>
   1 < length three_replicas \<and>
   replicaIds (completeWrites locate_in_place (rev (reconcile three_replicas))
                 three_replicas ! 1) =
     {''m1'', ''m2''}"
proof -
  have p: "mset (rev (reconcile three_replicas)) = mset (reconcile three_replicas)"
    by simp
  have i: "1 < length three_replicas" by (simp add: three_replicas_def)
  from C7_reconcile_converges[OF three_replicas_named three_replicas_files p i]
    three_replicas_named three_replicas_files p i
  show ?thesis by (simp add: three_replicas_ids)
qed

text \<open>
  The claim as stated fails on two replicas that \<open>saveMessage\<close> itself can leave
  behind. The messages with the identifiers \<open>./m2\<close> and \<open>m2\<close> are both written to
  the file \<open>m2.json\<close>; in the first replica the file holds the one, in the second the
  other. The pass re-saves both messages to both replicas, again to that one file, and
  when the writes have completed in the order scheduled both replicas hold the
  identifier \<open>./m2\<close> alone: \<open>m2\<close>, which the second replica had before the pass, is in
  neither.
\<close>

theorem C7_shared_file_loses_an_id:
  "''m2'' \<in> replicaIds (clashing_replicas ! 1) \<and>
   replicaIds (completeWrites locate_in_place (reconcile clashing_replicas)
                 clashing_replicas ! 0) = {''./m2''} \<and>
   replicaIds (completeWrites locate_in_place (reconcile clashing_replicas)
                 clashing_replicas ! 1) = {''./m2''} \<and>
   ''m2'' \<noteq> ''./m2''"
  by code_simp

text \<open>
  Whatever the order in which the writes complete, each of the two replicas keeps its
  single file and so holds one identifier, never the two of the union.
\<close>

lemma clashing_single_file:
  assumes ws: "set ws \<subseteq> set (reconcile clashing_replicas)"
    and rs: "length rs = 2" "\<forall>i < 2. map fst (rs ! i) = [''m2'']"
    and i: "i < 2"
  shows "map fst (completeWrites locate_in_place ws rs ! i) = [''m2'']"
  using ws rs
proof (induction ws arbitrary: rs)
  case Nil
  with i show ?case by (simp add: completeWrites_def)
next
  case (Cons w ws)
  have step: "completeWrites locate_in_place (w # ws) rs =
      completeWrites locate_in_place ws (completeWrite locate_in_place w rs)"
    by (simp add: completeWrites_def)
  have rec: "set (reconcile clashing_replicas) =
      {(1, m2), (2, m2), (1, dot_m2), (2, dot_m2)}"
    by code_simp
  from Cons.prems(1) rec have w: "w \<in> {(1, m2), (2, m2), (1, dot_m2), (2, dot_m2)}"
    by auto
  have keep: "\<forall>i < 2. map fst (completeWrite locate_in_place w rs ! i) = [''m2'']"
  proof (intro allI impI)
    fix j :: nat assume j: "j < 2"
    from Cons.prems(3) have r0: "map fst (rs ! 0) = [''m2'']" and r1: "map fst (rs ! 1) = [''m2'']"
      by simp_all
    from w j Cons.prems(2) r0 r1
    show "map fst (completeWrite locate_in_place w rs ! j) = [''m2'']"
      by (auto simp: completeWrite_def locate_in_place_def m2_def dot_m2_def update_keys
          nth_list_update less_2_cases_iff)
  qed
  from Cons.prems(1) have "set ws \<subseteq> set (reconcile clashing_replicas)" by simp
  from Cons.IH[OF this _ keep] Cons.prems(2) show ?case by (simp add: step)
qed

lemma clashing_never_converges:
  assumes "mset ws = mset (reconcile clashing_replicas)" and "i < 2"
  shows "replicaIds (completeWrites locate_in_place ws clashing_replicas ! i) \<noteq>
         (\<Union>r \<in> set clashing_replicas. replicaIds r)"
proof -
  from assms(1) have "set ws \<subseteq> set (reconcile clashing_replicas)"
    using mset_eq_setD by blast
  from clashing_single_file[OF this _ _ assms(2), of clashing_replicas]
  have "map fst (completeWrites locate_in_place ws clashing_replicas ! i) = [''m2'']"
    by (simp add: clashing_replicas_def less_2_cases_iff)
  then have "length (completeWrites locate_in_place ws clashing_replicas ! i) = 1"
    by (metis length_map length_Cons list.size(3) One_nat_def)
  then obtain p where "completeWrites locate_in_place ws clashing_replicas ! i = [p]"
    by (cases "completeWrites locate_in_place ws clashing_replicas ! i") auto
  then have one: "replicaIds (completeWrites locate_in_place ws clashing_replicas ! i) =
      {id_msg (snd p)}"
    by (simp add: replicaIds_image)
  have two: "(\<Union>r \<in> set clashing_replicas. replicaIds r) = {''./m2'', ''m2''}"
    by (auto simp: clashing_replicas_def replicaIds_image m2_def dot_m2_def)
  show ?thesis unfolding one two by auto
qed

text \<open>
  A replica with a file that is not named after its message does not converge either:
  the file \<open>m2.json\<close> of the first replica holds \<open>m1\<close>, the pass writes \<open>m2\<close> over
  it, and the replica ends without \<open>m1\<close>.
\<close>

lemma misnamed_file_is_overwritten:
  "replicaIds (misnamed_replicas ! 0) = {''m1''} \<and>
   replicaIds (completeWrites locate_in_place (reconcile misnamed_replicas)
                 misnamed_replicas ! 0) = {''m2''}"
  by code_simp

end
